theory Spec2Isabelle
  imports Main "HOL-Library.Word" "HOL-Library.List_Lexorder" "HOL-Library.Multiset"
begin

section \<open>The sort-imports rule of src/sort-imports.ts\<close>

text \<open>
  The rule receives from the linter the import declarations of a file (syntax tree nodes
  with their source ranges and line numbers), the file's text and a query for the comments
  next to a node. It reports violations, each with a fix: one replacement of a range of the
  text. The nodes are modelled as records holding what the rule reads of them.
\<close>

subsection \<open>JavaScript strings\<close>

text \<open>
  A string is the list of its 16-bit code units, and a range is a pair of offsets into the
  text. Strings are compared by code unit, lexicographically: the order of lists of words.
  \<open>codeUnits\<close> gives the string of an ASCII literal.
\<close>

type_synonym jsstring = "16 word list"

definition codeUnits :: "string \<Rightarrow> jsstring" where
  "codeUnits s = map of_char s"

text \<open>
  \<open>String.prototype.toLowerCase\<close> is a function of the engine, defined by the Unicode
  case mappings. It is not modelled: every definition below that calls it takes it as its
  first argument, \<open>toLowerCase\<close>, and what is proved holds for every such function.
\<close>

subsection \<open>Configuration\<close>

text \<open>
  The enum \<open>MemberSyntaxSortOrder\<close> (None, All, Multiple, Single) and its string values.
\<close>

datatype MemberSyntaxSortOrder = None_syntax | All_syntax | Multiple_syntax | Single_syntax

fun enumValue :: "MemberSyntaxSortOrder \<Rightarrow> jsstring" where
  "enumValue None_syntax = codeUnits ''none''"
| "enumValue All_syntax = codeUnits ''all''"
| "enumValue Multiple_syntax = codeUnits ''multiple''"
| "enumValue Single_syntax = codeUnits ''single''"

datatype TypeSortStrategy = Mixed | Before | After

fun strategyValue :: "TypeSortStrategy \<Rightarrow> jsstring" where
  "strategyValue Mixed = codeUnits ''mixed''"
| "strategyValue Before = codeUnits ''before''"
| "strategyValue After = codeUnits ''after''"

record Options =
  ignoreCase :: bool
  ignoreMemberSort :: bool
  memberSyntaxSortOrder :: "MemberSyntaxSortOrder list"
  typeSortStrategy :: TypeSortStrategy

definition defaultOptions :: Options where
  "defaultOptions =
     \<lparr> ignoreCase = False, ignoreMemberSort = False,
       memberSyntaxSortOrder = [None_syntax, All_syntax, Multiple_syntax, Single_syntax],
       typeSortStrategy = After \<rparr>"


subsection \<open>Syntax tree nodes\<close>

datatype SpecifierType = ImportSpecifier | ImportDefaultSpecifier | ImportNamespaceSpecifier

text \<open>
  A specifier: its node type, \<open>local.name\<close>, its \<open>range\<close>, and the comments the
  linter's \<open>getCommentsBefore\<close> and \<open>getCommentsAfter\<close> return for it.
\<close>

record Specifier =
  spec_type :: SpecifierType
  local_name :: jsstring
  spec_range :: "nat \<times> nat"
  commentsBefore :: "jsstring list"
  commentsAfter :: "jsstring list"

datatype ImportKind = type_kind | value_kind

text \<open>
  An import declaration: \<open>specifiers\<close>, \<open>importKind\<close> (absent in a syntax tree without
  type information), \<open>source.value\<close>, \<open>range\<close>, \<open>loc.start.line\<close> and \<open>loc.end.line\<close>.
\<close>

record ImportDeclaration =
  specifiers :: "Specifier list"
  importKind :: "ImportKind option"
  source_value :: jsstring
  decl_range :: "nat \<times> nat"
  loc_start_line :: int
  loc_end_line :: int

subsection \<open>JavaScript string and array operations\<close>

text \<open>
  \<open>s.substring(i, j)\<close> swaps its arguments when \<open>i > j\<close>; \<open>s.slice(i, j)\<close> does not.
\<close>

definition substring :: "jsstring \<Rightarrow> nat \<Rightarrow> nat \<Rightarrow> jsstring" where
  "substring s i j = take (max i j - min i j) (drop (min i j) s)"

definition slice :: "jsstring \<Rightarrow> nat \<Rightarrow> nat \<Rightarrow> jsstring" where
  "slice s i j = take (j - i) (drop i s)"

text \<open>\<open>array[i]\<close>: \<open>undefined\<close> (here \<open>None\<close>) outside the array.\<close>

definition at_index :: "'a list \<Rightarrow> int \<Rightarrow> 'a option" where
  "at_index xs i = (if 0 \<le> i \<and> i < int (length xs) then Some (xs ! nat i) else None)"

text \<open>
  \<open>u > s\<close> for \<open>u\<close> a string or \<open>undefined\<close> and \<open>s\<close> a string: \<open>undefined\<close> converts to
  NaN, and every comparison with NaN is false.
\<close>

definition js_gt :: "jsstring option \<Rightarrow> jsstring \<Rightarrow> bool" where
  "js_gt u s = (case u of None \<Rightarrow> False | Some t \<Rightarrow> s < t)"

text \<open>
  \<open>array.findIndex(p)\<close>, the callback receiving the element and its index: the first
  index whose element satisfies \<open>p\<close>, or -1.
\<close>

fun findIndexFrom :: "('a \<Rightarrow> int \<Rightarrow> bool) \<Rightarrow> 'a list \<Rightarrow> int \<Rightarrow> int" where
  "findIndexFrom p [] i = -1"
| "findIndexFrom p (x # xs) i = (if p x i then i else findIndexFrom p xs (i + 1))"

definition findIndex :: "('a \<Rightarrow> int \<Rightarrow> bool) \<Rightarrow> 'a list \<Rightarrow> int" where
  "findIndex p xs = findIndexFrom p xs 0"

text \<open>\<open>array.indexOf(x)\<close>: the first index holding \<open>x\<close>, or -1.\<close>

definition indexOf :: "'a list \<Rightarrow> 'a \<Rightarrow> int" where
  "indexOf xs x = findIndex (\<lambda>y i. y = x) xs"

subsection \<open>Array.prototype.sort\<close>

text \<open>
  The linter runs on Node.js, whose engine sorts an array as follows (for an array shorter
  than 64 elements, where no merging takes place): the longest run at the start of the
  array is found, comparing each element with the one before it, \<open>comparefn(next, previous)\<close>;
  a run that starts with a negative result is descending, continues while the results are
  negative, and is reversed; any other run continues while the results are not negative.
  The elements after the run are then inserted one by one by binary search, going left of
  the middle element when \<open>comparefn(pivot, middle)\<close> is negative and right of it otherwise.
  The order in which the comparator's arguments are passed matters here, since the rule's
  comparators answer -1 for two equal names whichever comes first.

  An array of 64 or more elements is cut into several such runs, which the engine then
  merges; the model does not merge and sorts every array as above. The properties proved
  below for all arrays use of the sort only that it permutes the array.
\<close>

fun countRun :: "('a \<Rightarrow> 'a \<Rightarrow> int) \<Rightarrow> bool \<Rightarrow> 'a \<Rightarrow> 'a list \<Rightarrow> nat" where
  "countRun comparefn isDescending previousElement [] = 0"
| "countRun comparefn isDescending previousElement (currentElement # rest) =
     (let order = comparefn currentElement previousElement in
      if (if isDescending then order \<ge> 0 else order < 0) then 0
      else Suc (countRun comparefn isDescending currentElement rest))"

fun countAndMakeRun :: "('a \<Rightarrow> 'a \<Rightarrow> int) \<Rightarrow> 'a list \<Rightarrow> 'a list \<times> 'a list" where
  "countAndMakeRun comparefn [] = ([], [])"
| "countAndMakeRun comparefn [x] = ([x], [])"
| "countAndMakeRun comparefn (elementHigh # elementLow # rest) =
     (let isDescending = (comparefn elementLow elementHigh < 0);
          runLength = 2 + countRun comparefn isDescending elementLow rest;
          run = take runLength (elementHigh # elementLow # rest)
      in (if isDescending then rev run else run,
          drop runLength (elementHigh # elementLow # rest)))"

function findInsertionPoint ::
  "('a \<Rightarrow> 'a \<Rightarrow> int) \<Rightarrow> 'a \<Rightarrow> 'a list \<Rightarrow> nat \<Rightarrow> nat \<Rightarrow> nat" where
  "findInsertionPoint comparefn pivot work left right =
     (if left < right then
        (let mid = left + (right - left) div 2 in
         if comparefn pivot (work ! mid) < 0
         then findInsertionPoint comparefn pivot work left mid
         else findInsertionPoint comparefn pivot work (mid + 1) right)
      else left)"
  by pat_completeness auto
termination
  by (relation "measure (\<lambda>(comparefn, pivot, work, left, right). right - left)") auto

declare findInsertionPoint.simps [simp del]

fun binaryInsertionSort :: "('a \<Rightarrow> 'a \<Rightarrow> int) \<Rightarrow> 'a list \<Rightarrow> 'a list \<Rightarrow> 'a list" where
  "binaryInsertionSort comparefn work [] = work"
| "binaryInsertionSort comparefn work (pivot # rest) =
     (let left = findInsertionPoint comparefn pivot work 0 (length work) in
      binaryInsertionSort comparefn (take left work @ [pivot] @ drop left work) rest)"

definition arraySort :: "('a \<Rightarrow> 'a \<Rightarrow> int) \<Rightarrow> 'a list \<Rightarrow> 'a list" where
  "arraySort comparefn xs =
     (case countAndMakeRun comparefn xs of (run, rest) \<Rightarrow> binaryInsertionSort comparefn run rest)"

subsection \<open>Classification of a declaration\<close>

definition getSortableName :: "(jsstring \<Rightarrow> jsstring) \<Rightarrow> Specifier \<Rightarrow> bool \<Rightarrow> jsstring" where
  "getSortableName toLowerCase specifier ic =
     (if ic then toLowerCase (local_name specifier) else local_name specifier)"

text \<open>The switch on \<open>node.specifiers[0]?.type\<close>.\<close>

definition usedMemberSyntax :: "ImportDeclaration \<Rightarrow> MemberSyntaxSortOrder" where
  "usedMemberSyntax node =
     (case at_index (specifiers node) 0 of
        None \<Rightarrow> None_syntax
      | Some s \<Rightarrow>
          (case spec_type s of
             ImportNamespaceSpecifier \<Rightarrow> All_syntax
           | ImportDefaultSpecifier \<Rightarrow> Single_syntax
           | ImportSpecifier \<Rightarrow> Multiple_syntax))"

definition getMemberParameterGroupIndex ::
  "ImportDeclaration \<Rightarrow> MemberSyntaxSortOrder list \<Rightarrow> int" where
  "getMemberParameterGroupIndex node order = indexOf order (usedMemberSyntax node)"

definition getFirstLocalMemberName :: "ImportDeclaration \<Rightarrow> jsstring" where
  "getFirstLocalMemberName node =
     (if length (specifiers node) \<noteq> 0 then local_name (specifiers node ! 0)
      else source_value node)"

definition isLineBetween :: "ImportDeclaration \<Rightarrow> ImportDeclaration \<Rightarrow> bool" where
  "isLineBetween firstNode secondNode =
     (loc_end_line firstNode < loc_start_line secondNode - 1)"

text \<open>\<open>(node.importKind && node.importKind === "type") || false\<close>.\<close>

definition isTypeImport :: "ImportDeclaration \<Rightarrow> bool" where
  "isTypeImport node = (importKind node = Some type_kind)"

text \<open>\<open>node.specifiers.filter((specifier) => specifier.type === "ImportSpecifier")\<close>.\<close>

definition importSpecifiersOf :: "ImportDeclaration \<Rightarrow> Specifier list" where
  "importSpecifiersOf node =
     filter (\<lambda>specifier. spec_type specifier = ImportSpecifier) (specifiers node)"

text \<open>\<open>names.findIndex((name, index, array) => array[index - 1] > name)\<close>.\<close>

definition firstUnsorted :: "jsstring list \<Rightarrow> int" where
  "firstUnsorted names =
     findIndex (\<lambda>name index. js_gt (at_index names (index - 1)) name) names"

definition firstUnsortedIndex ::
  "(jsstring \<Rightarrow> jsstring) \<Rightarrow> Options \<Rightarrow> ImportDeclaration \<Rightarrow> int" where
  "firstUnsortedIndex toLowerCase opts node =
     firstUnsorted
       (map (\<lambda>s. getSortableName toLowerCase s (ignoreCase opts)) (importSpecifiersOf node))"

subsection \<open>Fix synthesis: sortAndFixAllNodes\<close>

text \<open>
  \<open>array.reduce(f, init)\<close>, the callback receiving the accumulator, the element and its
  index.
\<close>

fun reduceFrom :: "('b \<Rightarrow> 'a \<Rightarrow> nat \<Rightarrow> 'b) \<Rightarrow> 'b \<Rightarrow> 'a list \<Rightarrow> nat \<Rightarrow> 'b" where
  "reduceFrom f acc [] i = acc"
| "reduceFrom f acc (x # xs) i = reduceFrom f (f acc x i) xs (i + 1)"

definition reduce :: "('b \<Rightarrow> 'a \<Rightarrow> nat \<Rightarrow> 'b) \<Rightarrow> 'b \<Rightarrow> 'a list \<Rightarrow> 'b" where
  "reduce f init xs = reduceFrom f init xs 0"

text \<open>The comparator of the specifiers' sort: \<open>aName > bName ? 1 : -1\<close>.\<close>

definition specifierCompare ::
  "(jsstring \<Rightarrow> jsstring) \<Rightarrow> bool \<Rightarrow> Specifier \<Rightarrow> Specifier \<Rightarrow> int" where
  "specifierCompare toLowerCase ic specifierA specifierB =
     (let aName = getSortableName toLowerCase specifierA ic;
          bName = getSortableName toLowerCase specifierB ic
      in if bName < aName then 1 else -1)"

text \<open>
  The text of the sorted specifiers: each sorted specifier's own text, followed by the text
  that stood between the original specifiers at the same position. The sorted array is as
  long as the original one, so \<open>importSpecifiers[index + 1]\<close> exists wherever it is read.
\<close>

definition specifiersText ::
  "(jsstring \<Rightarrow> jsstring) \<Rightarrow> bool \<Rightarrow> jsstring \<Rightarrow> Specifier list \<Rightarrow> jsstring" where
  "specifiersText toLowerCase ic initial importSpecifiers =
     reduce
       (\<lambda>sourceText specifier index.
          (let textAfterSpecifier =
                 (if int index = int (length importSpecifiers) - 1 then []
                  else slice initial (snd (spec_range (importSpecifiers ! index)))
                         (fst (spec_range (importSpecifiers ! (index + 1)))))
           in sourceText
                @ substring initial (fst (spec_range specifier)) (snd (spec_range specifier))
                @ textAfterSpecifier))
       []
       (arraySort (specifierCompare toLowerCase ic) importSpecifiers)"

text \<open>
  The callback of \<open>rich.map\<close>: a declaration with its text, its named specifiers sorted
  when the scan finds an unsorted one (there are then at least two of them).
\<close>

definition fixNode ::
  "(jsstring \<Rightarrow> jsstring) \<Rightarrow> Options \<Rightarrow> jsstring \<Rightarrow> ImportDeclaration \<times> jsstring \<Rightarrow>
   ImportDeclaration \<times> jsstring" where
  "fixNode toLowerCase opts initial n =
     (let node = fst n in
      if \<not> ignoreMemberSort opts \<and> firstUnsortedIndex toLowerCase opts node \<noteq> -1 then
        (let importSpecifiers = importSpecifiersOf node;
             before = substring initial (fst (decl_range node))
                        (fst (spec_range (importSpecifiers ! 0)));
             after = substring initial
                        (snd (spec_range (importSpecifiers ! (length importSpecifiers - 1))))
                        (snd (decl_range node));
             between = specifiersText toLowerCase (ignoreCase opts) initial importSpecifiers
         in (node, before @ between @ after))
      else n)"

text \<open>
  The grouping into sections, the callback of \<open>fixed.reduce\<close> starting from \<open>[[]]\<close>: a
  declaration opens a new section when there is a line between it and the last declaration
  of the last section, and is pushed onto the last section otherwise.
\<close>

definition groupStep ::
  "(ImportDeclaration \<times> jsstring) list list \<Rightarrow> ImportDeclaration \<times> jsstring \<Rightarrow>
   (ImportDeclaration \<times> jsstring) list list" where
  "groupStep sections current =
     (let lastSection = last sections in
      if length lastSection = 0 then butlast sections @ [lastSection @ [current]]
      else
        (let lastFixed = last lastSection in
         if isLineBetween (fst lastFixed) (fst current) then sections @ [[current]]
         else butlast sections @ [lastSection @ [current]]))"

definition sectionsOf ::
  "(ImportDeclaration \<times> jsstring) list \<Rightarrow> (ImportDeclaration \<times> jsstring) list list" where
  "sectionsOf fixed = foldl groupStep [[]] fixed"

text \<open>
  The comparator of the sections' sort; \<open>a\<close> is the "previous" and \<open>b\<close> the "current"
  declaration. With \<open>ignoreCase\<close> a name is replaced by \<open>name && name.toLowerCase()\<close>.
\<close>

definition declarationCompare ::
  "(jsstring \<Rightarrow> jsstring) \<Rightarrow> Options \<Rightarrow> ImportDeclaration \<times> jsstring \<Rightarrow>
   ImportDeclaration \<times> jsstring \<Rightarrow> int" where
  "declarationCompare toLowerCase opts a b =
     (let currentMemberSyntaxGroupIndex =
            getMemberParameterGroupIndex (fst b) (memberSyntaxSortOrder opts);
          currentMemberIsType = isTypeImport (fst b);
          previousMemberSyntaxGroupIndex =
            getMemberParameterGroupIndex (fst a) (memberSyntaxSortOrder opts);
          previousMemberIsType = isTypeImport (fst a);
          lower = (\<lambda>name. if ignoreCase opts \<and> name \<noteq> [] then toLowerCase name else name);
          currentLocalMemberName = lower (getFirstLocalMemberName (fst b));
          previousLocalMemberName = lower (getFirstLocalMemberName (fst a))
      in
      if typeSortStrategy opts \<noteq> Mixed \<and> currentMemberIsType \<noteq> previousMemberIsType then
        (if (currentMemberIsType \<and> typeSortStrategy opts = Before)
            \<or> (previousMemberIsType \<and> typeSortStrategy opts = After) then 1 else -1)
      else if currentMemberSyntaxGroupIndex \<noteq> previousMemberSyntaxGroupIndex then
        (if currentMemberSyntaxGroupIndex < previousMemberSyntaxGroupIndex then 1 else -1)
      else if previousLocalMemberName \<noteq> [] \<and> currentLocalMemberName \<noteq> [] then
        (if currentLocalMemberName < previousLocalMemberName then 1 else -1)
      else 0)"

text \<open>The texts between consecutive declarations (the last declaration has none).\<close>

definition betweensOf :: "jsstring \<Rightarrow> ImportDeclaration list \<Rightarrow> jsstring list" where
  "betweensOf initial nodes =
     map (\<lambda>i. substring initial (snd (decl_range (nodes ! i)))
                (fst (decl_range (nodes ! (i + 1)))))
       [0 ..< length nodes - 1]"

text \<open>\<open>rich\<close> and \<open>fixed\<close>: the declarations with their texts, named specifiers sorted.\<close>

definition fixedNodes ::
  "(jsstring \<Rightarrow> jsstring) \<Rightarrow> Options \<Rightarrow> jsstring \<Rightarrow> ImportDeclaration list \<Rightarrow>
   (ImportDeclaration \<times> jsstring) list" where
  "fixedNodes toLowerCase opts initial nodes =
     (let rich =
            map (\<lambda>node. (node, substring initial (fst (decl_range node)) (snd (decl_range node))))
              nodes
      in map (fixNode toLowerCase opts initial) rich)"

text \<open>\<open>sorted\<close>: each section sorted, the sections flattened.\<close>

definition sortedNodes ::
  "(jsstring \<Rightarrow> jsstring) \<Rightarrow> Options \<Rightarrow> jsstring \<Rightarrow> ImportDeclaration list \<Rightarrow>
   (ImportDeclaration \<times> jsstring) list" where
  "sortedNodes toLowerCase opts initial nodes =
     concat (map (arraySort (declarationCompare toLowerCase opts))
               (sectionsOf (fixedNodes toLowerCase opts initial nodes)))"

text \<open>
  The final text: the sorted declarations' texts, the i-th preceded by \<open>betweens[i - 1]\<close>
  (which a template string renders as "undefined" if the array has no such element).
\<close>

definition sortAndFixAllNodes ::
  "(jsstring \<Rightarrow> jsstring) \<Rightarrow> Options \<Rightarrow> jsstring \<Rightarrow> ImportDeclaration list \<Rightarrow> jsstring" where
  "sortAndFixAllNodes toLowerCase opts initial nodes =
     (let betweens = betweensOf initial nodes in
      reduce
        (\<lambda>done current i.
           done
           @ (if i \<noteq> 0 then
                (case at_index betweens (int i - 1) of
                   None \<Rightarrow> codeUnits ''undefined''
                 | Some t \<Rightarrow> t)
              else [])
           @ current)
        []
        (map snd (sortedNodes toLowerCase opts initial nodes)))"

subsection \<open>Reports\<close>

datatype MessageIds = memberAlphabetical | wrongOrder | typeOrder | alphabeticalOrder

datatype ReportNode = DeclarationNode ImportDeclaration | SpecifierNode Specifier

text \<open>
  What a report's \<open>fix\<close> function returns: \<open>null\<close>, or the replacement of a range of the
  text; \<open>FixTypeError\<close> stands for the exception it throws on reading
  \<open>allDeclarations[0].range\<close> of an empty array.
\<close>

datatype Fix = NullFix | ReplaceTextRange "nat \<times> nat" jsstring | FixTypeError

record Report =
  report_node :: ReportNode
  messageId :: MessageIds
  report_data :: "(string \<times> jsstring option) list"
  report_fix :: Fix

text \<open>
  \<open>fixer.replaceTextRange([allDeclarations[0].range[0],
  allDeclarations[allDeclarations.length - 1].range[1]], sortAndFixAllNodes(initialSource,
  allDeclarations))\<close>, the body of the fix of every kind of report.
\<close>

definition replaceAllDeclarations ::
  "(jsstring \<Rightarrow> jsstring) \<Rightarrow> Options \<Rightarrow> jsstring \<Rightarrow> ImportDeclaration list \<Rightarrow> Fix" where
  "replaceAllDeclarations toLowerCase opts initialSource allDeclarations =
     (case at_index allDeclarations 0 of
        None \<Rightarrow> FixTypeError
      | Some firstDeclaration \<Rightarrow>
          ReplaceTextRange
            (fst (decl_range firstDeclaration),
             snd (decl_range (allDeclarations ! (length allDeclarations - 1))))
            (sortAndFixAllNodes toLowerCase opts initialSource allDeclarations))"

subsection \<open>The rule's handler for an import declaration\<close>

text \<open>
  The first part of the handler, run when there is a previous declaration with no line
  between it and \<open>node\<close>: at most one of typeOrder, wrongOrder and alphabeticalOrder.
\<close>

definition orderReports ::
  "(jsstring \<Rightarrow> jsstring) \<Rightarrow> Options \<Rightarrow> jsstring \<Rightarrow> ImportDeclaration list \<Rightarrow>
   ImportDeclaration \<Rightarrow> ImportDeclaration \<Rightarrow> Report list" where
  "orderReports toLowerCase opts initialSource allDeclarations previousDeclaration node =
     (let currentMemberSyntaxGroupIndex =
            getMemberParameterGroupIndex node (memberSyntaxSortOrder opts);
          currentMemberIsType = isTypeImport node;
          previousMemberSyntaxGroupIndex =
            getMemberParameterGroupIndex previousDeclaration (memberSyntaxSortOrder opts);
          previousMemberIsType = isTypeImport previousDeclaration;
          lower = (\<lambda>name. if ignoreCase opts then toLowerCase name else name);
          currentLocalMemberName = lower (getFirstLocalMemberName node);
          previousLocalMemberName = lower (getFirstLocalMemberName previousDeclaration);
          fixAll = replaceAllDeclarations toLowerCase opts initialSource allDeclarations
      in
      if typeSortStrategy opts \<noteq> Mixed \<and> currentMemberIsType \<noteq> previousMemberIsType then
        (if (currentMemberIsType \<and> typeSortStrategy opts = Before)
            \<or> (previousMemberIsType \<and> typeSortStrategy opts = After)
         then [\<lparr> report_node = DeclarationNode node, messageId = typeOrder,
                 report_data =
                   [(''typeSortStrategy'', Some (strategyValue (typeSortStrategy opts)))],
                 report_fix = fixAll \<rparr>]
         else [])
      else if currentMemberSyntaxGroupIndex \<noteq> previousMemberSyntaxGroupIndex then
        (if currentMemberSyntaxGroupIndex < previousMemberSyntaxGroupIndex
         then [\<lparr> report_node = DeclarationNode node, messageId = wrongOrder,
                 report_data =
                   [(''syntaxA'',
                     map_option enumValue
                       (at_index (memberSyntaxSortOrder opts) currentMemberSyntaxGroupIndex)),
                    (''syntaxB'',
                     map_option enumValue
                       (at_index (memberSyntaxSortOrder opts) previousMemberSyntaxGroupIndex))],
                 report_fix = fixAll \<rparr>]
         else [])
      else
        (if previousLocalMemberName \<noteq> [] \<and> currentLocalMemberName \<noteq> []
            \<and> currentLocalMemberName < previousLocalMemberName
         then [\<lparr> report_node = DeclarationNode node, messageId = alphabeticalOrder,
                 report_data = [], report_fix = fixAll \<rparr>]
         else []))"

text \<open>
  \<open>importSpecifiers.some((specifier) => sourceCode.getCommentsBefore(specifier).length ||
  sourceCode.getCommentsAfter(specifier).length)\<close>.
\<close>

definition hasComments :: "Specifier list \<Rightarrow> bool" where
  "hasComments importSpecifiers =
     list_ex
       (\<lambda>specifier.
          0 < length (commentsBefore specifier) \<or> 0 < length (commentsAfter specifier))
       importSpecifiers"

text \<open>The second part of the handler: the named specifiers of \<open>node\<close>.\<close>

definition memberReports ::
  "(jsstring \<Rightarrow> jsstring) \<Rightarrow> Options \<Rightarrow> jsstring \<Rightarrow> ImportDeclaration list \<Rightarrow>
   ImportDeclaration \<Rightarrow> Report list" where
  "memberReports toLowerCase opts initialSource allDeclarations node =
     (if \<not> ignoreMemberSort opts then
        (let importSpecifiers = importSpecifiersOf node;
             firstUnsortedIndex = firstUnsortedIndex toLowerCase opts node
         in if firstUnsortedIndex \<noteq> -1
            then [\<lparr> report_node = SpecifierNode (importSpecifiers ! nat firstUnsortedIndex),
                    messageId = memberAlphabetical,
                    report_data =
                      [(''memberName'',
                        Some (local_name (importSpecifiers ! nat firstUnsortedIndex)))],
                    report_fix =
                      (if hasComments importSpecifiers then NullFix
                       else replaceAllDeclarations toLowerCase opts initialSource
                              allDeclarations) \<rparr>]
            else [])
      else [])"

text \<open>
  The handler: the reports for \<open>node\<close> and the new value of \<open>previousDeclaration\<close>.
  \<open>allDeclarations\<close> are the import declarations of the program's body.
\<close>

definition visitImportDeclaration ::
  "(jsstring \<Rightarrow> jsstring) \<Rightarrow> Options \<Rightarrow> jsstring \<Rightarrow> ImportDeclaration list \<Rightarrow>
   ImportDeclaration option \<Rightarrow> ImportDeclaration \<Rightarrow>
   Report list \<times> ImportDeclaration option" where
  "visitImportDeclaration toLowerCase opts initialSource allDeclarations previousDeclaration
     node =
     ((case previousDeclaration of
         None \<Rightarrow> []
       | Some previous \<Rightarrow>
           if \<not> isLineBetween previous node
           then orderReports toLowerCase opts initialSource allDeclarations previous node
           else [])
      @ memberReports toLowerCase opts initialSource allDeclarations node,
      Some node)"

text \<open>
  The linter's walk over a file: the handler is called for every import declaration of
  the file, in source order (\<open>visited\<close>). \<open>allDeclarations\<close> are the import declarations
  among the statements of the program's body; an import declaration inside a
  \<open>declare module\<close> block is visited too, but is not one of them.
\<close>

fun walk ::
  "(jsstring \<Rightarrow> jsstring) \<Rightarrow> Options \<Rightarrow> jsstring \<Rightarrow> ImportDeclaration list \<Rightarrow>
   ImportDeclaration option \<Rightarrow> ImportDeclaration list \<Rightarrow> Report list" where
  "walk toLowerCase opts initialSource allDeclarations previousDeclaration [] = []"
| "walk toLowerCase opts initialSource allDeclarations previousDeclaration (node # rest) =
     (case visitImportDeclaration toLowerCase opts initialSource allDeclarations
             previousDeclaration node of
        (reports, previous) \<Rightarrow>
          reports @ walk toLowerCase opts initialSource allDeclarations previous rest)"

definition analyse ::
  "(jsstring \<Rightarrow> jsstring) \<Rightarrow> Options \<Rightarrow> jsstring \<Rightarrow> ImportDeclaration list \<Rightarrow>
   ImportDeclaration list \<Rightarrow> Report list" where
  "analyse toLowerCase opts sourceText allDeclarations visited =
     walk toLowerCase opts sourceText allDeclarations None visited"

section \<open>Example files\<close>

text \<open>
  Files of import declarations, each with its text and the declarations the parser gives for
  it: ranges are offsets into the text, lines count from 1.
\<close>

text \<open>
  On ASCII text \<open>String.prototype.toLowerCase\<close> is the function below; the examples, which
  are ASCII, are analysed with it.
\<close>

definition lowerUnit :: "16 word \<Rightarrow> 16 word" where
  "lowerUnit u = (if 0x41 \<le> u \<and> u \<le> 0x5A then u + 0x20 else u)"

definition asciiLowerCase :: "jsstring \<Rightarrow> jsstring" where
  "asciiLowerCase s = map lowerUnit s"

text \<open>The configuration with \<open>ignoreCase\<close> set.\<close>

definition ignoreCaseOptions :: Options where
  "ignoreCaseOptions = defaultOptions\<lparr> ignoreCase := True \<rparr>"

text \<open>One declaration with unsorted named specifiers.\<close>

definition example_members_source :: jsstring where
  "example_members_source =
     codeUnits ''import {b, a, d, c} from 'foo.js';''"

definition example_members_declarations :: "ImportDeclaration list" where
  "example_members_declarations =
     [\<lparr> specifiers =
          [\<lparr> spec_type = ImportSpecifier, local_name = codeUnits ''b'',
             spec_range = (8, 9), commentsBefore = [], commentsAfter = [] \<rparr>,
           \<lparr> spec_type = ImportSpecifier, local_name = codeUnits ''a'',
             spec_range = (11, 12), commentsBefore = [], commentsAfter = [] \<rparr>,
           \<lparr> spec_type = ImportSpecifier, local_name = codeUnits ''d'',
             spec_range = (14, 15), commentsBefore = [], commentsAfter = [] \<rparr>,
           \<lparr> spec_type = ImportSpecifier, local_name = codeUnits ''c'',
             spec_range = (17, 18), commentsBefore = [], commentsAfter = [] \<rparr>],
        importKind = Some value_kind, source_value = codeUnits ''foo.js'',
        decl_range = (0, 34), loc_start_line = 1, loc_end_line = 1 \<rparr>]"

text \<open>One declaration with a single named specifier.\<close>

definition example_single_source :: jsstring where
  "example_single_source =
     codeUnits ''import {c} from 'foo.js';''"

definition example_single_declarations :: "ImportDeclaration list" where
  "example_single_declarations =
     [\<lparr> specifiers =
          [\<lparr> spec_type = ImportSpecifier, local_name = codeUnits ''c'',
             spec_range = (8, 9), commentsBefore = [], commentsAfter = [] \<rparr>],
        importKind = Some value_kind, source_value = codeUnits ''foo.js'',
        decl_range = (0, 25), loc_start_line = 1, loc_end_line = 1 \<rparr>]"

text \<open>Two runs: a blank line stands between the second and the third declaration.\<close>

definition example_runs_source :: jsstring where
  "example_runs_source =
     codeUnits ''import D from 'foo.js';\<newline>import B from 'bar.js';\<newline>\<newline>import A from 'baz.js';''"

definition example_runs_declarations :: "ImportDeclaration list" where
  "example_runs_declarations =
     [\<lparr> specifiers =
          [\<lparr> spec_type = ImportDefaultSpecifier, local_name = codeUnits ''D'',
             spec_range = (7, 8), commentsBefore = [], commentsAfter = [] \<rparr>],
        importKind = Some value_kind, source_value = codeUnits ''foo.js'',
        decl_range = (0, 23), loc_start_line = 1, loc_end_line = 1 \<rparr>,
      \<lparr> specifiers =
          [\<lparr> spec_type = ImportDefaultSpecifier, local_name = codeUnits ''B'',
             spec_range = (31, 32), commentsBefore = [], commentsAfter = [] \<rparr>],
        importKind = Some value_kind, source_value = codeUnits ''bar.js'',
        decl_range = (24, 47), loc_start_line = 2, loc_end_line = 2 \<rparr>,
      \<lparr> specifiers =
          [\<lparr> spec_type = ImportDefaultSpecifier, local_name = codeUnits ''A'',
             spec_range = (56, 57), commentsBefore = [], commentsAfter = [] \<rparr>],
        importKind = Some value_kind, source_value = codeUnits ''baz.js'',
        decl_range = (49, 72), loc_start_line = 4, loc_end_line = 4 \<rparr>]"







text \<open>The second declaration has unsorted named specifiers, and a comment follows its specifier d.\<close>

definition example_commented_source :: jsstring where
  "example_commented_source =
     codeUnits ''import b from 'b';\<newline>import a, {d /* x */, c} from 'a';''"

definition example_commented_declarations :: "ImportDeclaration list" where
  "example_commented_declarations =
     [\<lparr> specifiers =
          [\<lparr> spec_type = ImportDefaultSpecifier, local_name = codeUnits ''b'',
             spec_range = (7, 8), commentsBefore = [], commentsAfter = [] \<rparr>],
        importKind = Some value_kind, source_value = codeUnits ''b'',
        decl_range = (0, 18), loc_start_line = 1, loc_end_line = 1 \<rparr>,
      \<lparr> specifiers =
          [\<lparr> spec_type = ImportDefaultSpecifier, local_name = codeUnits ''a'',
             spec_range = (26, 27), commentsBefore = [], commentsAfter = [] \<rparr>,
           \<lparr> spec_type = ImportSpecifier, local_name = codeUnits ''d'',
             spec_range = (30, 31), commentsBefore = [], commentsAfter = [codeUnits ''/* x */''] \<rparr>,
           \<lparr> spec_type = ImportSpecifier, local_name = codeUnits ''c'',
             spec_range = (41, 42), commentsBefore = [], commentsAfter = [] \<rparr>],
        importKind = Some value_kind, source_value = codeUnits ''a'',
        decl_range = (19, 53), loc_start_line = 2, loc_end_line = 2 \<rparr>]"

text \<open>The first declaration's named specifiers are unsorted, and the second declaration's first name sorts between them.\<close>

definition example_stale_source :: jsstring where
  "example_stale_source =
     codeUnits ''import {c, a} from 'x';\<newline>import {b} from 'y';''"

definition example_stale_declarations :: "ImportDeclaration list" where
  "example_stale_declarations =
     [\<lparr> specifiers =
          [\<lparr> spec_type = ImportSpecifier, local_name = codeUnits ''c'',
             spec_range = (8, 9), commentsBefore = [], commentsAfter = [] \<rparr>,
           \<lparr> spec_type = ImportSpecifier, local_name = codeUnits ''a'',
             spec_range = (11, 12), commentsBefore = [], commentsAfter = [] \<rparr>],
        importKind = Some value_kind, source_value = codeUnits ''x'',
        decl_range = (0, 23), loc_start_line = 1, loc_end_line = 1 \<rparr>,
      \<lparr> specifiers =
          [\<lparr> spec_type = ImportSpecifier, local_name = codeUnits ''b'',
             spec_range = (32, 33), commentsBefore = [], commentsAfter = [] \<rparr>],
        importKind = Some value_kind, source_value = codeUnits ''y'',
        decl_range = (24, 44), loc_start_line = 2, loc_end_line = 2 \<rparr>]"

text \<open>The text that the fix makes of the previous example, and its declarations.\<close>

definition example_stale_fixed_source :: jsstring where
  "example_stale_fixed_source =
     codeUnits ''import {b} from 'y';\<newline>import {a, c} from 'x';''"

definition example_stale_fixed_declarations :: "ImportDeclaration list" where
  "example_stale_fixed_declarations =
     [\<lparr> specifiers =
          [\<lparr> spec_type = ImportSpecifier, local_name = codeUnits ''b'',
             spec_range = (8, 9), commentsBefore = [], commentsAfter = [] \<rparr>],
        importKind = Some value_kind, source_value = codeUnits ''y'',
        decl_range = (0, 20), loc_start_line = 1, loc_end_line = 1 \<rparr>,
      \<lparr> specifiers =
          [\<lparr> spec_type = ImportSpecifier, local_name = codeUnits ''a'',
             spec_range = (29, 30), commentsBefore = [], commentsAfter = [] \<rparr>,
           \<lparr> spec_type = ImportSpecifier, local_name = codeUnits ''c'',
             spec_range = (32, 33), commentsBefore = [], commentsAfter = [] \<rparr>],
        importKind = Some value_kind, source_value = codeUnits ''x'',
        decl_range = (21, 44), loc_start_line = 2, loc_end_line = 2 \<rparr>]"





text \<open>Two default imports whose names are in order as written and out of order when case is ignored.\<close>

definition example_folded_names_source :: jsstring where
  "example_folded_names_source =
     codeUnits ''import B from 'foo.js';\<newline>import a from 'bar.js';''"

definition example_folded_names_declarations :: "ImportDeclaration list" where
  "example_folded_names_declarations =
     [\<lparr> specifiers =
          [\<lparr> spec_type = ImportDefaultSpecifier, local_name = codeUnits ''B'',
             spec_range = (7, 8), commentsBefore = [], commentsAfter = [] \<rparr>],
        importKind = Some value_kind, source_value = codeUnits ''foo.js'',
        decl_range = (0, 23), loc_start_line = 1, loc_end_line = 1 \<rparr>,
      \<lparr> specifiers =
          [\<lparr> spec_type = ImportDefaultSpecifier, local_name = codeUnits ''a'',
             spec_range = (31, 32), commentsBefore = [], commentsAfter = [] \<rparr>],
        importKind = Some value_kind, source_value = codeUnits ''bar.js'',
        decl_range = (24, 47), loc_start_line = 2, loc_end_line = 2 \<rparr>]"

text \<open>A default specifier before named specifiers that are unsorted only when case is ignored.\<close>

definition example_mixed_members_source :: jsstring where
  "example_mixed_members_source =
     codeUnits ''import foo, {a, B, D, c} from 'foo.js';''"

definition example_mixed_members_declarations :: "ImportDeclaration list" where
  "example_mixed_members_declarations =
     [\<lparr> specifiers =
          [\<lparr> spec_type = ImportDefaultSpecifier, local_name = codeUnits ''foo'',
             spec_range = (7, 10), commentsBefore = [], commentsAfter = [] \<rparr>,
           \<lparr> spec_type = ImportSpecifier, local_name = codeUnits ''a'',
             spec_range = (13, 14), commentsBefore = [], commentsAfter = [] \<rparr>,
           \<lparr> spec_type = ImportSpecifier, local_name = codeUnits ''B'',
             spec_range = (16, 17), commentsBefore = [], commentsAfter = [] \<rparr>,
           \<lparr> spec_type = ImportSpecifier, local_name = codeUnits ''D'',
             spec_range = (19, 20), commentsBefore = [], commentsAfter = [] \<rparr>,
           \<lparr> spec_type = ImportSpecifier, local_name = codeUnits ''c'',
             spec_range = (22, 23), commentsBefore = [], commentsAfter = [] \<rparr>],
        importKind = Some value_kind, source_value = codeUnits ''foo.js'',
        decl_range = (0, 39), loc_start_line = 1, loc_end_line = 1 \<rparr>]"

text \<open>Named specifiers of which two tie when case is ignored.\<close>

definition example_ties_source :: jsstring where
  "example_ties_source =
     codeUnits ''import {b, A, a} from 'x';''"

definition example_ties_declarations :: "ImportDeclaration list" where
  "example_ties_declarations =
     [\<lparr> specifiers =
          [\<lparr> spec_type = ImportSpecifier, local_name = codeUnits ''b'',
             spec_range = (8, 9), commentsBefore = [], commentsAfter = [] \<rparr>,
           \<lparr> spec_type = ImportSpecifier, local_name = codeUnits ''A'',
             spec_range = (11, 12), commentsBefore = [], commentsAfter = [] \<rparr>,
           \<lparr> spec_type = ImportSpecifier, local_name = codeUnits ''a'',
             spec_range = (14, 15), commentsBefore = [], commentsAfter = [] \<rparr>],
        importKind = Some value_kind, source_value = codeUnits ''x'',
        decl_range = (0, 26), loc_start_line = 1, loc_end_line = 1 \<rparr>]"

text \<open>Two default imports whose names tie when case is ignored, before a named import.\<close>

definition example_tied_declarations_source :: jsstring where
  "example_tied_declarations_source =
     codeUnits ''import a from 'x';\<newline>import A from 'y';\<newline>import {c} from 'z';''"

definition example_tied_declarations_declarations :: "ImportDeclaration list" where
  "example_tied_declarations_declarations =
     [\<lparr> specifiers =
          [\<lparr> spec_type = ImportDefaultSpecifier, local_name = codeUnits ''a'',
             spec_range = (7, 8), commentsBefore = [], commentsAfter = [] \<rparr>],
        importKind = Some value_kind, source_value = codeUnits ''x'',
        decl_range = (0, 18), loc_start_line = 1, loc_end_line = 1 \<rparr>,
      \<lparr> specifiers =
          [\<lparr> spec_type = ImportDefaultSpecifier, local_name = codeUnits ''A'',
             spec_range = (26, 27), commentsBefore = [], commentsAfter = [] \<rparr>],
        importKind = Some value_kind, source_value = codeUnits ''y'',
        decl_range = (19, 37), loc_start_line = 2, loc_end_line = 2 \<rparr>,
      \<lparr> specifiers =
          [\<lparr> spec_type = ImportSpecifier, local_name = codeUnits ''c'',
             spec_range = (46, 47), commentsBefore = [], commentsAfter = [] \<rparr>],
        importKind = Some value_kind, source_value = codeUnits ''z'',
        decl_range = (38, 58), loc_start_line = 3, loc_end_line = 3 \<rparr>]"

section \<open>Properties\<close>

subsection \<open>The scan for the first unsorted name\<close>

lemma findIndexFrom_cases:
  "(findIndexFrom p xs i = -1 \<and> (\<forall>k<length xs. \<not> p (xs ! k) (i + int k)))
   \<or> (\<exists>k<length xs. findIndexFrom p xs i = i + int k \<and> p (xs ! k) (i + int k)
         \<and> (\<forall>j<k. \<not> p (xs ! j) (i + int j)))"
proof (induction xs arbitrary: i)
  case Nil
  then show ?case by simp
next
  case (Cons x xs)
  show ?case
  proof (cases "p x i")
    case True
    then have "findIndexFrom p (x # xs) i = i + int 0 \<and> p ((x # xs) ! 0) (i + int 0)
        \<and> (\<forall>j<0. \<not> p ((x # xs) ! j) (i + int j))" by simp
    then show ?thesis by blast
  next
    case False
    from Cons.IH [of "i + 1"] show ?thesis
    proof
      assume a: "findIndexFrom p xs (i + 1) = -1 \<and> (\<forall>k<length xs. \<not> p (xs ! k) (i + 1 + int k))"
      have "\<forall>k<length (x # xs). \<not> p ((x # xs) ! k) (i + int k)"
      proof (intro allI impI)
        fix k assume "k < length (x # xs)"
        then show "\<not> p ((x # xs) ! k) (i + int k)"
          using a False by (cases k) (auto simp: algebra_simps)
      qed
      with a False show ?thesis by simp
    next
      assume "\<exists>k<length xs. findIndexFrom p xs (i + 1) = i + 1 + int k \<and> p (xs ! k) (i + 1 + int k)
         \<and> (\<forall>j<k. \<not> p (xs ! j) (i + 1 + int j))"
      then obtain k where k: "k < length xs" "findIndexFrom p xs (i + 1) = i + 1 + int k"
        "p (xs ! k) (i + 1 + int k)" "\<forall>j<k. \<not> p (xs ! j) (i + 1 + int j)" by blast
      have "\<forall>j<Suc k. \<not> p ((x # xs) ! j) (i + int j)"
      proof (intro allI impI)
        fix j assume "j < Suc k"
        then show "\<not> p ((x # xs) ! j) (i + int j)"
          using k(4) False by (cases j) (auto simp: algebra_simps)
      qed
      moreover have "findIndexFrom p (x # xs) i = i + int (Suc k)" using k(2) False by simp
      moreover have "p ((x # xs) ! Suc k) (i + int (Suc k))" using k(3) by (simp add: algebra_simps)
      moreover have "Suc k < length (x # xs)" using k(1) by simp
      ultimately show ?thesis by blast
    qed
  qed
qed

lemma findIndex_cases:
  "(findIndex p xs = -1 \<and> (\<forall>k<length xs. \<not> p (xs ! k) (int k)))
   \<or> (\<exists>k<length xs. findIndex p xs = int k \<and> p (xs ! k) (int k)
         \<and> (\<forall>j<k. \<not> p (xs ! j) (int j)))"
  using findIndexFrom_cases [of p xs 0] by (simp add: findIndex_def)

text \<open>The callback of the scan, at a position of the array.\<close>

lemma scan_callback:
  "k < length names \<Longrightarrow>
   js_gt (at_index names (int k - 1)) (names ! k) = (0 < k \<and> names ! k < names ! (k - 1))"
  by (cases k) (auto simp: js_gt_def at_index_def nat_diff_distrib)

lemma firstUnsorted_cases:
  "(firstUnsorted names = -1 \<and> (\<forall>k<length names. \<not> (0 < k \<and> names ! k < names ! (k - 1))))
   \<or> (\<exists>k<length names. firstUnsorted names = int k \<and> 0 < k \<and> names ! k < names ! (k - 1)
         \<and> (\<forall>j<k. \<not> (0 < j \<and> names ! j < names ! (j - 1))))"
proof -
  let ?p = "\<lambda>name index. js_gt (at_index names (index - 1)) name"
  from findIndex_cases [of ?p names] show ?thesis
  proof
    assume a: "findIndex ?p names = -1 \<and> (\<forall>k<length names. \<not> ?p (names ! k) (int k))"
    then have "\<forall>k<length names. \<not> (0 < k \<and> names ! k < names ! (k - 1))"
      using scan_callback [of _ names] by blast
    with a show ?thesis by (simp add: firstUnsorted_def)
  next
    assume "\<exists>k<length names. findIndex ?p names = int k \<and> ?p (names ! k) (int k)
         \<and> (\<forall>j<k. \<not> ?p (names ! j) (int j))"
    then obtain k where k: "k < length names" "findIndex ?p names = int k"
      "?p (names ! k) (int k)" "\<forall>j<k. \<not> ?p (names ! j) (int j)" by blast
    have 1: "0 < k \<and> names ! k < names ! (k - 1)" using k(1,3) scan_callback [of k names] by simp
    have 2: "\<forall>j<k. \<not> (0 < j \<and> names ! j < names ! (j - 1))"
    proof (intro allI impI)
      fix j assume "j < k"
      then have "j < length names" "\<not> ?p (names ! j) (int j)" using k(1,4) by auto
      then show "\<not> (0 < j \<and> names ! j < names ! (j - 1))" using scan_callback [of j names] by simp
    qed
    from k(1,2) 1 2 show ?thesis unfolding firstUnsorted_def by blast
  qed
qed

subsection \<open>The reports of the handler\<close>

lemma orderReports_messageId:
  "r \<in> set (orderReports toLowerCase opts src alld prev node) \<Longrightarrow>
   messageId r = typeOrder \<or> messageId r = wrongOrder \<or> messageId r = alphabeticalOrder"
  by (auto simp: orderReports_def Let_def split: if_splits)

lemma memberReports_messageId:
  "r \<in> set (memberReports toLowerCase opts src alld node) \<Longrightarrow> messageId r = memberAlphabetical"
  by (auto simp: memberReports_def Let_def split: if_splits)

lemma visit_reports:
  "set (fst (visitImportDeclaration toLowerCase opts src alld prev node)) =
     (case prev of None \<Rightarrow> {} | Some p \<Rightarrow>
        if isLineBetween p node then {} else set (orderReports toLowerCase opts src alld p node))
     \<union> set (memberReports toLowerCase opts src alld node)"
  by (simp add: visitImportDeclaration_def split: option.splits)

lemma visit_member_reports:
  "{r \<in> set (fst (visitImportDeclaration toLowerCase opts src alld prev node)). messageId r = memberAlphabetical}
   = set (memberReports toLowerCase opts src alld node)"
proof -
  have "\<And>p r. r \<in> set (orderReports toLowerCase opts src alld p node) \<Longrightarrow> messageId r \<noteq> memberAlphabetical"
    using orderReports_messageId by fastforce
  then show ?thesis
    using memberReports_messageId
    by (auto simp: visit_reports split: option.splits if_splits)
qed

lemma firstUnsortedIndex_range:
  "firstUnsortedIndex toLowerCase opts node = -1
   \<or> (1 \<le> firstUnsortedIndex toLowerCase opts node
       \<and> firstUnsortedIndex toLowerCase opts node < int (length (importSpecifiersOf node)))"
  using firstUnsorted_cases [of "map (\<lambda>s. getSortableName toLowerCase s (ignoreCase opts)) (importSpecifiersOf node)"]
  by (auto simp: firstUnsortedIndex_def)

subsection \<open>The branches of the handler\<close>

lemma visit_messageIds:
  "messageId ` set (fst (visitImportDeclaration toLowerCase opts src alld (Some A) B)) =
     (if isLineBetween A B then {} else messageId ` set (orderReports toLowerCase opts src alld A B))
     \<union> messageId ` set (memberReports toLowerCase opts src alld B)"
  by (simp add: visitImportDeclaration_def image_Un)

lemma memberReports_ids_subset:
  "messageId ` set (memberReports toLowerCase opts src alld node) \<subseteq> {memberAlphabetical}"
  using memberReports_messageId by fastforce







lemma orderReports_name_branch:
  assumes "typeSortStrategy opts = Mixed \<or> isTypeImport A = isTypeImport B"
    and "getMemberParameterGroupIndex A (memberSyntaxSortOrder opts)
         = getMemberParameterGroupIndex B (memberSyntaxSortOrder opts)"
  shows "messageId ` set (orderReports toLowerCase opts src alld A B) =
     (if (if ignoreCase opts
          then toLowerCase (getFirstLocalMemberName A) \<noteq> []
               \<and> toLowerCase (getFirstLocalMemberName B) \<noteq> []
               \<and> toLowerCase (getFirstLocalMemberName B) < toLowerCase (getFirstLocalMemberName A)
          else getFirstLocalMemberName A \<noteq> [] \<and> getFirstLocalMemberName B \<noteq> []
               \<and> getFirstLocalMemberName B < getFirstLocalMemberName A)
      then {alphabeticalOrder} else {})"
  using assms by (auto simp: orderReports_def Let_def)

lemma getFirstLocalMemberName_cases:
  "getFirstLocalMemberName node =
     (case specifiers node of [] \<Rightarrow> source_value node | s # rest \<Rightarrow> local_name s)"
  by (simp add: getFirstLocalMemberName_def split: list.splits)

lemma memberReports_cases:
  "memberReports toLowerCase opts src alld node =
     (if \<not> ignoreMemberSort opts \<and> firstUnsortedIndex toLowerCase opts node \<noteq> -1
      then [\<lparr> report_node = SpecifierNode (importSpecifiersOf node ! nat (firstUnsortedIndex toLowerCase opts node)),
              messageId = memberAlphabetical,
              report_data = [(''memberName'',
                Some (local_name (importSpecifiersOf node ! nat (firstUnsortedIndex toLowerCase opts node))))],
              report_fix = (if hasComments (importSpecifiersOf node) then NullFix
                            else replaceAllDeclarations toLowerCase opts src alld) \<rparr>]
      else [])"
  by (simp add: memberReports_def Let_def)

lemma firstUnsorted_least:
  assumes "\<exists>i. 0 < i \<and> i < length names \<and> names ! i < names ! (i - 1)"
  shows "firstUnsorted names = int (LEAST i. 0 < i \<and> i < length names \<and> names ! i < names ! (i - 1))"
proof -
  from firstUnsorted_cases [of names] assms
  obtain k where k: "k < length names" "firstUnsorted names = int k" "0 < k"
    "names ! k < names ! (k - 1)" "\<forall>j<k. \<not> (0 < j \<and> names ! j < names ! (j - 1))"
    by blast
  have "(LEAST i. 0 < i \<and> i < length names \<and> names ! i < names ! (i - 1)) = k"
  proof (rule Least_equality)
    show "0 < k \<and> k < length names \<and> names ! k < names ! (k - 1)" using k by simp
  next
    fix y assume "0 < y \<and> y < length names \<and> names ! y < names ! (y - 1)"
    then show "k \<le> y" using k(5) by (meson not_le_imp_less)
  qed
  with k(2) show ?thesis by simp
qed

lemma firstUnsorted_none:
  "firstUnsorted names = -1 \<longleftrightarrow> \<not> (\<exists>i. 0 < i \<and> i < length names \<and> names ! i < names ! (i - 1))"
  using firstUnsorted_cases [of names] by auto

subsection \<open>The sort permutes its array\<close>

lemma countAndMakeRun_mset:
  "countAndMakeRun comparefn xs = (run, rest) \<Longrightarrow> mset run + mset rest = mset xs"
proof (induction comparefn xs rule: countAndMakeRun.induct)
  case (3 comparefn elementHigh elementLow rest')
  let ?xs = "elementHigh # elementLow # rest'"
  define n where "n = 2 + countRun comparefn (comparefn elementLow elementHigh < 0) elementLow rest'"
  have "(if comparefn elementLow elementHigh < 0 then rev (take n ?xs) else take n ?xs, drop n ?xs)
      = (run, rest)"
    using "3.prems" unfolding n_def by (simp only: countAndMakeRun.simps Let_def)
  then have n: "run = rev (take n ?xs) \<or> run = take n ?xs" "rest = drop n ?xs"
    by (auto simp only: prod.inject split: if_splits)
  have "mset (take n ?xs) + mset (drop n ?xs) = mset ?xs"
    by (metis append_take_drop_id mset_append)
  with n show ?case by (auto simp only: mset_rev)
qed simp_all

lemma binaryInsertionSort_mset:
  "mset (binaryInsertionSort comparefn work rest) = mset work + mset rest"
proof (induction rest arbitrary: work)
  case Nil
  show ?case by simp
next
  case (Cons pivot rest)
  let ?left = "findInsertionPoint comparefn pivot work 0 (length work)"
  have "mset (take ?left work) + mset (drop ?left work) = mset work"
    by (metis append_take_drop_id mset_append)
  then have "mset (take ?left work @ [pivot] @ drop ?left work) = mset work + {#pivot#}"
    by simp
  with Cons.IH [of "take ?left work @ [pivot] @ drop ?left work"] show ?case
    by (simp add: Let_def)
qed

lemma arraySort_mset: "mset (arraySort comparefn xs) = mset xs"
proof -
  obtain run rest where c: "countAndMakeRun comparefn xs = (run, rest)" by (cases "countAndMakeRun comparefn xs")
  then show ?thesis
    using countAndMakeRun_mset [OF c] by (simp add: arraySort_def binaryInsertionSort_mset)
qed

lemma arraySort_length: "length (arraySort comparefn xs) = length xs"
  by (metis arraySort_mset size_mset)

subsection \<open>The sections of sortAndFixAllNodes\<close>

lemma sectionsOf_snoc: "sectionsOf (xs @ [x]) = groupStep (sectionsOf xs) x"
  by (simp add: sectionsOf_def)

lemma sectionsOf_Nil: "sectionsOf [] = [[]]"
  by (simp add: sectionsOf_def)

lemma sectionsOf_invariant:
  "sectionsOf xs \<noteq> []
   \<and> concat (sectionsOf xs) = xs
   \<and> (xs = [] \<longrightarrow> sectionsOf xs = [[]])
   \<and> (xs \<noteq> [] \<longrightarrow> [] \<notin> set (sectionsOf xs))
   \<and> (\<forall>s \<in> set (sectionsOf xs). successively (\<lambda>a b. \<not> isLineBetween (fst a) (fst b)) s)
   \<and> successively (\<lambda>s t. isLineBetween (fst (last s)) (fst (hd t))) (sectionsOf xs)"
proof (induction xs rule: rev_induct)
  case Nil
  show ?case by (simp add: sectionsOf_Nil)
next
  case (snoc x xs)
  let ?secs = "sectionsOf xs"
  let ?A = "\<lambda>a b. \<not> isLineBetween (fst a) (fst b)"
  let ?B = "\<lambda>s t. isLineBetween (fst (last s)) (fst (hd t))"
  from snoc.IH have ne: "?secs \<noteq> []" and cc: "concat ?secs = xs"
    and emp: "xs = [] \<longrightarrow> ?secs = [[]]" and nemp: "xs \<noteq> [] \<longrightarrow> [] \<notin> set ?secs"
    and sa: "\<forall>s \<in> set ?secs. successively ?A s" and sb: "successively ?B ?secs" by blast+
  have split: "butlast ?secs @ [last ?secs] = ?secs" using ne by simp
  show ?case
  proof (cases "last ?secs = []")
    case True
    then have "xs = []" using nemp ne last_in_set by metis
    then have "?secs = [[]]" using emp by simp
    then have "sectionsOf (xs @ [x]) = [[x]]"
      by (simp add: sectionsOf_snoc groupStep_def)
    then show ?thesis using \<open>xs = []\<close> by simp
  next
    case False
    then have xs: "xs \<noteq> []" using emp by auto
    show ?thesis
    proof (cases "isLineBetween (fst (last (last ?secs))) (fst x)")
      case True
      then have eq: "sectionsOf (xs @ [x]) = ?secs @ [[x]]"
        using False by (simp add: sectionsOf_snoc groupStep_def Let_def)
      have "successively ?B (?secs @ [[x]])"
        using sb True by (simp add: successively_append_iff)
      then show ?thesis
        unfolding eq using cc nemp xs sa by auto
    next
      case nl: False
      then have eq: "sectionsOf (xs @ [x]) = butlast ?secs @ [last ?secs @ [x]]"
        using False by (simp add: sectionsOf_snoc groupStep_def Let_def)
      have c: "concat (butlast ?secs @ [last ?secs @ [x]]) = xs @ [x]"
      proof -
        have "concat (butlast ?secs) @ last ?secs = concat (butlast ?secs @ [last ?secs])" by simp
        also have "\<dots> = xs" unfolding split by (rule cc)
        finally show ?thesis by simp
      qed
      have bl: "set (butlast ?secs) \<subseteq> set ?secs" by (meson in_set_butlastD subsetI)
      have la: "successively ?A (last ?secs @ [x])"
        using sa ne nl False by (simp add: successively_append_iff)
      have "successively ?B (butlast ?secs @ [last ?secs])" unfolding split by (rule sb)
      then have lb: "successively ?B (butlast ?secs @ [last ?secs @ [x]])"
        using False by (simp add: successively_append_iff)
      have n1: "[] \<notin> set (butlast ?secs @ [last ?secs @ [x]])"
        using nemp xs bl by auto
      have a1: "\<forall>s \<in> set (butlast ?secs @ [last ?secs @ [x]]). successively ?A s"
        using sa bl la by auto
      show ?thesis unfolding eq using c n1 a1 lb by simp
    qed
  qed
qed

lemma concat_slot:
  assumes "k < length xss" and "\<forall>xs \<in> set xss. length (f xs) = length xs"
  shows "take (length (xss ! k)) (drop (length (concat (take k xss))) (concat (map f xss)))
         = f (xss ! k)"
  using assms
proof (induction xss arbitrary: k)
  case Nil
  then show ?case by simp
next
  case (Cons xs xss)
  show ?case
  proof (cases k)
    case 0
    then show ?thesis using Cons.prems by simp
  next
    case (Suc j)
    then have "j < length xss" using Cons.prems by simp
    moreover have "\<forall>ys \<in> set xss. length (f ys) = length ys" using Cons.prems by simp
    ultimately have "take (length (xss ! j)) (drop (length (concat (take j xss))) (concat (map f xss)))
         = f (xss ! j)" by (rule Cons.IH)
    moreover have "length (f xs) = length xs" using Cons.prems by simp
    ultimately show ?thesis using Suc by simp
  qed
qed

lemma fixNode_fst: "fst (fixNode toLowerCase opts initial n) = fst n"
  by (simp add: fixNode_def Let_def)

lemma fixedNodes_fst: "map fst (fixedNodes toLowerCase opts initial nodes) = nodes"
  by (simp add: fixedNodes_def Let_def fixNode_fst comp_def)

subsection \<open>The fix of a report\<close>





subsection \<open>C1: the range a fix replaces\<close>




subsection \<open>C2: specifiers with comments are reordered by the fixes of other reports\<close>

text \<open>
  Claim C2 says that no fix reorders the named specifiers of a declaration one of whose
  specifiers has a comment attached. In the code only the fix of the memberAlphabetical
  report of that declaration checks for comments (and is then null as a whole);
  sortAndFixAllNodes, which every other fix calls, sorts the specifiers of every
  declaration without looking for comments. Below, the comment follows specifier d; the
  fix of the alphabeticalOrder report exchanges d and c and leaves the comment behind c.
\<close>

theorem comment_guard_bypassed:
  "hasComments (importSpecifiersOf (example_commented_declarations ! 1))
   \<and> map messageId (analyse asciiLowerCase defaultOptions example_commented_source
         example_commented_declarations example_commented_declarations)
     = [alphabeticalOrder, memberAlphabetical]
   \<and> map report_fix (analyse asciiLowerCase defaultOptions example_commented_source
         example_commented_declarations example_commented_declarations)
     = [ReplaceTextRange (0, 53)
          (codeUnits ''import a, {c /* x */, d} from 'a';\<newline>import b from 'b';''),
        NullFix]"
  by code_simp

subsection \<open>C3: the type-strategy check\<close>



subsection \<open>C4: the group-order check\<close>



subsection \<open>C5: the alphabetical check\<close>

text \<open>
  Claim C5. For a declaration B visited after a declaration A with no line between them, when
  the type-strategy check does not apply and their group indices are equal: an
  alphabeticalOrder violation is reported if and only if both first local names, lower-cased
  when ignoreCase is set, are not empty and B's is less than A's in the order of code
  units. Lower-casing maps no string but the empty one to the empty string; for every
  \<open>toLowerCase\<close> with that property the condition is the claim's: both first local names
  are not empty and B's normalised name is less than A's. The first local name is the local
  name of the first specifier if there is one, and the module source otherwise. The handler
  leaves B as the previous declaration.
\<close>

theorem alphabetical_check:
  assumes "\<not> isLineBetween A B"
    and "typeSortStrategy opts = Mixed \<or> isTypeImport A = isTypeImport B"
    and "getMemberParameterGroupIndex A (memberSyntaxSortOrder opts)
         = getMemberParameterGroupIndex B (memberSyntaxSortOrder opts)"
  shows "(alphabeticalOrder
            \<in> messageId ` set (fst (visitImportDeclaration toLowerCase opts src alld (Some A) B))
          \<longleftrightarrow> (if ignoreCase opts
               then toLowerCase (getFirstLocalMemberName A) \<noteq> []
                    \<and> toLowerCase (getFirstLocalMemberName B) \<noteq> []
                    \<and> toLowerCase (getFirstLocalMemberName B)
                        < toLowerCase (getFirstLocalMemberName A)
               else getFirstLocalMemberName A \<noteq> [] \<and> getFirstLocalMemberName B \<noteq> []
                    \<and> getFirstLocalMemberName B < getFirstLocalMemberName A))
         \<and> ((\<forall>s. (toLowerCase s = []) = (s = [])) \<longrightarrow>
              (alphabeticalOrder
                 \<in> messageId ` set (fst (visitImportDeclaration toLowerCase opts src alld (Some A) B))
               \<longleftrightarrow> getFirstLocalMemberName A \<noteq> [] \<and> getFirstLocalMemberName B \<noteq> []
                    \<and> (if ignoreCase opts
                        then toLowerCase (getFirstLocalMemberName B)
                               < toLowerCase (getFirstLocalMemberName A)
                        else getFirstLocalMemberName B < getFirstLocalMemberName A)))
         \<and> getFirstLocalMemberName A
             = (case specifiers A of [] \<Rightarrow> source_value A | s # rest \<Rightarrow> local_name s)
         \<and> getFirstLocalMemberName B
             = (case specifiers B of [] \<Rightarrow> source_value B | s # rest \<Rightarrow> local_name s)
         \<and> snd (visitImportDeclaration toLowerCase opts src alld (Some A) B) = Some B"
proof -
  let ?ids = "messageId ` set (fst (visitImportDeclaration toLowerCase opts src alld (Some A) B))"
  have v: "?ids = messageId ` set (orderReports toLowerCase opts src alld A B)
      \<union> messageId ` set (memberReports toLowerCase opts src alld B)"
    using assms(1) by (simp add: visit_messageIds)
  have m: "messageId ` set (memberReports toLowerCase opts src alld B) \<subseteq> {memberAlphabetical}"
    by (rule memberReports_ids_subset)
  note n = orderReports_name_branch [OF assms(2,3), of toLowerCase src alld]
  have 1: "alphabeticalOrder \<in> ?ids
      \<longleftrightarrow> (if ignoreCase opts
           then toLowerCase (getFirstLocalMemberName A) \<noteq> []
                \<and> toLowerCase (getFirstLocalMemberName B) \<noteq> []
                \<and> toLowerCase (getFirstLocalMemberName B) < toLowerCase (getFirstLocalMemberName A)
           else getFirstLocalMemberName A \<noteq> [] \<and> getFirstLocalMemberName B \<noteq> []
                \<and> getFirstLocalMemberName B < getFirstLocalMemberName A)"
  proof -
    have "alphabeticalOrder \<in> ?ids
        \<longleftrightarrow> alphabeticalOrder \<in> messageId ` set (orderReports toLowerCase opts src alld A B)"
      using v m by auto
    then show ?thesis unfolding n by simp
  qed
  have 2: "(\<forall>s. (toLowerCase s = []) = (s = [])) \<longrightarrow>
      (alphabeticalOrder \<in> ?ids
       \<longleftrightarrow> getFirstLocalMemberName A \<noteq> [] \<and> getFirstLocalMemberName B \<noteq> []
            \<and> (if ignoreCase opts
                then toLowerCase (getFirstLocalMemberName B) < toLowerCase (getFirstLocalMemberName A)
                else getFirstLocalMemberName B < getFirstLocalMemberName A))"
  proof
    assume e: "\<forall>s. (toLowerCase s = []) = (s = [])"
    show "alphabeticalOrder \<in> ?ids
       \<longleftrightarrow> getFirstLocalMemberName A \<noteq> [] \<and> getFirstLocalMemberName B \<noteq> []
            \<and> (if ignoreCase opts
                then toLowerCase (getFirstLocalMemberName B) < toLowerCase (getFirstLocalMemberName A)
                else getFirstLocalMemberName B < getFirstLocalMemberName A)"
      unfolding 1 using e by (cases "ignoreCase opts") simp_all
  qed
  have 3: "snd (visitImportDeclaration toLowerCase opts src alld (Some A) B) = Some B"
    by (simp add: visitImportDeclaration_def)
  from 1 2 3 getFirstLocalMemberName_cases [of A] getFirstLocalMemberName_cases [of B]
  show ?thesis by blast
qed

text \<open>
  The theorem at \<open>import B from 'foo.js'\<close> followed by \<open>import a from 'bar.js'\<close>: with
  ignoreCase the names are b and a, and the violation is reported; without it B is less
  than a, and nothing is reported.
\<close>

theorem alphabetical_check_witness:
  "(\<forall>s. (asciiLowerCase s = []) = (s = []))
   \<and> \<not> isLineBetween (example_folded_names_declarations ! 0) (example_folded_names_declarations ! 1)
   \<and> isTypeImport (example_folded_names_declarations ! 0)
      = isTypeImport (example_folded_names_declarations ! 1)
   \<and> getMemberParameterGroupIndex (example_folded_names_declarations ! 0)
        (memberSyntaxSortOrder ignoreCaseOptions)
      = getMemberParameterGroupIndex (example_folded_names_declarations ! 1)
          (memberSyntaxSortOrder ignoreCaseOptions)
   \<and> getFirstLocalMemberName (example_folded_names_declarations ! 0) = codeUnits ''B''
   \<and> getFirstLocalMemberName (example_folded_names_declarations ! 1) = codeUnits ''a''
   \<and> ignoreCase ignoreCaseOptions
   \<and> asciiLowerCase (codeUnits ''a'') < asciiLowerCase (codeUnits ''B'')
   \<and> alphabeticalOrder \<in> messageId ` set (fst (visitImportDeclaration asciiLowerCase
         ignoreCaseOptions example_folded_names_source example_folded_names_declarations
         (Some (example_folded_names_declarations ! 0)) (example_folded_names_declarations ! 1)))
   \<and> \<not> codeUnits ''a'' < codeUnits ''B''
   \<and> alphabeticalOrder \<notin> messageId ` set (fst (visitImportDeclaration asciiLowerCase
         defaultOptions example_folded_names_source example_folded_names_declarations
         (Some (example_folded_names_declarations ! 0)) (example_folded_names_declarations ! 1)))"
proof -
  let ?A = "example_folded_names_declarations ! 0" and ?B = "example_folded_names_declarations ! 1"
  have h0: "\<forall>s. (asciiLowerCase s = []) = (s = [])" by (simp add: asciiLowerCase_def)
  have h1: "\<not> isLineBetween ?A ?B" by code_simp
  have h2: "isTypeImport ?A = isTypeImport ?B" by code_simp
  have h3: "getMemberParameterGroupIndex ?A (memberSyntaxSortOrder ignoreCaseOptions)
      = getMemberParameterGroupIndex ?B (memberSyntaxSortOrder ignoreCaseOptions)" by code_simp
  have h3': "getMemberParameterGroupIndex ?A (memberSyntaxSortOrder defaultOptions)
      = getMemberParameterGroupIndex ?B (memberSyntaxSortOrder defaultOptions)" by code_simp
  have h4: "getFirstLocalMemberName ?A = codeUnits ''B''" by code_simp
  have h5: "getFirstLocalMemberName ?B = codeUnits ''a''" by code_simp
  have h6: "ignoreCase ignoreCaseOptions" "\<not> ignoreCase defaultOptions" by code_simp+
  have h7: "asciiLowerCase (codeUnits ''a'') < asciiLowerCase (codeUnits ''B'')" by code_simp
  have h8: "\<not> codeUnits ''a'' < codeUnits ''B''" by code_simp
  have h9: "codeUnits ''a'' \<noteq> []" "codeUnits ''B'' \<noteq> []" by code_simp+
  note t = alphabetical_check [OF h1 disjI2 [OF h2] h3, of asciiLowerCase
      example_folded_names_source example_folded_names_declarations]
  note u = alphabetical_check [OF h1 disjI2 [OF h2] h3', of asciiLowerCase
      example_folded_names_source example_folded_names_declarations]
  have w1: "alphabeticalOrder \<in> messageId ` set (fst (visitImportDeclaration asciiLowerCase
         ignoreCaseOptions example_folded_names_source example_folded_names_declarations
         (Some ?A) ?B))"
    using t h0 h4 h5 h6(1) h7 h9 by simp
  have w2: "alphabeticalOrder \<notin> messageId ` set (fst (visitImportDeclaration asciiLowerCase
         defaultOptions example_folded_names_source example_folded_names_declarations
         (Some ?A) ?B))"
    using u h4 h5 h6(2) h8 by simp
  from h0 h1 h2 h3 h4 h5 h6(1) h7 h8 w1 w2 show ?thesis by blast
qed

subsection \<open>C6: the check of the named specifiers\<close>

text \<open>
  Claim C6. For every declaration, whatever the previous declaration is (none, adjacent or
  not): a memberAlphabetical violation is reported if and only if ignoreMemberSort is not
  set and, among the names of the named specifiers (those of type ImportSpecifier) in source
  order, lower-cased when ignoreCase is set, some name is less than the one just before it;
  the report's memberName is the local name, as written, of the named specifier at the
  first such position. The handler leaves the declaration as the previous one.
\<close>

theorem member_check:
  "(let named = filter (\<lambda>s. spec_type s = ImportSpecifier) (specifiers node);
        names = map (\<lambda>s. if ignoreCase opts then toLowerCase (local_name s) else local_name s)
                  named;
        reports = fst (visitImportDeclaration toLowerCase opts src alld prev node)
    in (memberAlphabetical \<in> messageId ` set reports
          \<longleftrightarrow> \<not> ignoreMemberSort opts
               \<and> (\<exists>i. 0 < i \<and> i < length names \<and> names ! i < names ! (i - 1)))
       \<and> (\<forall>r \<in> set reports. messageId r = memberAlphabetical \<longrightarrow>
             report_data r =
               [(''memberName'',
                 Some (local_name (named !
                         (LEAST i. 0 < i \<and> i < length names \<and> names ! i < names ! (i - 1)))))])
       \<and> snd (visitImportDeclaration toLowerCase opts src alld prev node) = Some node)"
proof -
  define named where "named = filter (\<lambda>s. spec_type s = ImportSpecifier) (specifiers node)"
  define names where
    "names = map (\<lambda>s. if ignoreCase opts then toLowerCase (local_name s) else local_name s) named"
  define reports where "reports = fst (visitImportDeclaration toLowerCase opts src alld prev node)"
  have nd: "importSpecifiersOf node = named"
    by (simp add: importSpecifiersOf_def named_def)
  have fui: "firstUnsortedIndex toLowerCase opts node = firstUnsorted names"
    by (simp add: firstUnsortedIndex_def names_def nd getSortableName_def)
  have mem: "{r \<in> set reports. messageId r = memberAlphabetical}
      = set (memberReports toLowerCase opts src alld node)"
    unfolding reports_def by (rule visit_member_reports)
  have 1: "memberAlphabetical \<in> messageId ` set reports
      \<longleftrightarrow> \<not> ignoreMemberSort opts
           \<and> (\<exists>i. 0 < i \<and> i < length names \<and> names ! i < names ! (i - 1))"
  proof -
    have "memberAlphabetical \<in> messageId ` set reports
        \<longleftrightarrow> {r \<in> set reports. messageId r = memberAlphabetical} \<noteq> {}" by force
    also have "\<dots> \<longleftrightarrow> memberReports toLowerCase opts src alld node \<noteq> []" using mem by simp
    also have "\<dots> \<longleftrightarrow> \<not> ignoreMemberSort opts \<and> firstUnsorted names \<noteq> -1"
      by (simp add: memberReports_cases fui)
    finally have "memberAlphabetical \<in> messageId ` set reports
        \<longleftrightarrow> \<not> ignoreMemberSort opts \<and> firstUnsorted names \<noteq> -1" .
    then show ?thesis unfolding firstUnsorted_none by blast
  qed
  have 2: "\<forall>r \<in> set reports. messageId r = memberAlphabetical \<longrightarrow>
      report_data r =
        [(''memberName'',
          Some (local_name (named !
                  (LEAST i. 0 < i \<and> i < length names \<and> names ! i < names ! (i - 1)))))]"
  proof (intro ballI impI)
    fix r assume "r \<in> set reports" "messageId r = memberAlphabetical"
    then have r: "r \<in> set (memberReports toLowerCase opts src alld node)" using mem by blast
    then have ne: "firstUnsorted names \<noteq> -1"
      by (auto simp: memberReports_cases fui split: if_splits)
    then have "\<exists>i. 0 < i \<and> i < length names \<and> names ! i < names ! (i - 1)"
      unfolding firstUnsorted_none by blast
    then have "nat (firstUnsortedIndex toLowerCase opts node)
        = (LEAST i. 0 < i \<and> i < length names \<and> names ! i < names ! (i - 1))"
      using firstUnsorted_least [of names] fui by simp
    then show "report_data r =
        [(''memberName'',
          Some (local_name (named !
                  (LEAST i. 0 < i \<and> i < length names \<and> names ! i < names ! (i - 1)))))]"
      using r by (auto simp: memberReports_cases nd split: if_splits)
  qed
  have 3: "snd (visitImportDeclaration toLowerCase opts src alld prev node) = Some node"
    by (simp add: visitImportDeclaration_def)
  from 1 2 3 show ?thesis
    unfolding Let_def named_def [symmetric] names_def [symmetric] reports_def [symmetric]
    by blast
qed

text \<open>
  The theorem at \<open>import foo, {a, B, D, c} from 'foo.js'\<close> with ignoreCase: the names of
  the named specifiers are a, b, d, c, and the report names c, the named specifier of
  index 3. (Without lower-casing the first unsorted name would be B; with the default
  specifier foo counted it would be a.)
\<close>

theorem member_check_witness:
  "\<not> ignoreMemberSort ignoreCaseOptions \<and> ignoreCase ignoreCaseOptions
   \<and> map local_name (specifiers (example_mixed_members_declarations ! 0))
     = [codeUnits ''foo'', codeUnits ''a'', codeUnits ''B'', codeUnits ''D'', codeUnits ''c'']
   \<and> map (\<lambda>s. asciiLowerCase (local_name s))
        (filter (\<lambda>s. spec_type s = ImportSpecifier)
           (specifiers (example_mixed_members_declarations ! 0)))
     = [codeUnits ''a'', codeUnits ''b'', codeUnits ''d'', codeUnits ''c'']
   \<and> memberAlphabetical \<in> messageId ` set (fst (visitImportDeclaration asciiLowerCase
         ignoreCaseOptions example_mixed_members_source example_mixed_members_declarations None
         (example_mixed_members_declarations ! 0)))
   \<and> map report_data (fst (visitImportDeclaration asciiLowerCase ignoreCaseOptions
         example_mixed_members_source example_mixed_members_declarations None
         (example_mixed_members_declarations ! 0)))
     = [[(''memberName'', Some (codeUnits ''c''))]]"
proof -
  let ?n = "example_mixed_members_declarations ! 0"
  let ?v = "fst (visitImportDeclaration asciiLowerCase ignoreCaseOptions
               example_mixed_members_source example_mixed_members_declarations None ?n)"
  let ?named = "filter (\<lambda>s. spec_type s = ImportSpecifier) (specifiers ?n)"
  let ?names = "map (\<lambda>s. if ignoreCase ignoreCaseOptions then asciiLowerCase (local_name s)
                           else local_name s) ?named"
  have h1: "\<not> ignoreMemberSort ignoreCaseOptions" by code_simp
  have h1': "ignoreCase ignoreCaseOptions" by code_simp
  have h0: "map local_name (specifiers ?n)
      = [codeUnits ''foo'', codeUnits ''a'', codeUnits ''B'', codeUnits ''D'', codeUnits ''c'']"
    by code_simp
  have h2: "map (\<lambda>s. asciiLowerCase (local_name s)) ?named
      = [codeUnits ''a'', codeUnits ''b'', codeUnits ''d'', codeUnits ''c'']" by code_simp
  have l: "length ?names = 4" by code_simp
  have c1: "\<not> ?names ! 1 < ?names ! 0" by code_simp
  have c2: "\<not> ?names ! 2 < ?names ! 1" by code_simp
  have c3: "?names ! 3 < ?names ! 2" by code_simp
  have h3: "\<exists>i. 0 < i \<and> i < length ?names \<and> ?names ! i < ?names ! (i - 1)"
    using l c3 by (intro exI [of _ 3]) simp
  have h4: "(LEAST i. 0 < i \<and> i < length ?names \<and> ?names ! i < ?names ! (i - 1)) = 3"
  proof (rule Least_equality)
    show "0 < (3::nat) \<and> 3 < length ?names \<and> ?names ! 3 < ?names ! (3 - 1)"
      using l c3 by simp
  next
    fix y assume y: "0 < y \<and> y < length ?names \<and> ?names ! y < ?names ! (y - 1)"
    then have "y = 1 \<or> y = 2 \<or> y = 3" using l by auto
    then show "3 \<le> y" using y c1 c2 by auto
  qed
  have h5: "local_name (?named ! 3) = codeUnits ''c''" by code_simp
  have e: "map messageId ?v = [memberAlphabetical]" by code_simp
  note t = member_check [where node = ?n and opts = ignoreCaseOptions
      and toLowerCase = asciiLowerCase and src = example_mixed_members_source
      and alld = example_mixed_members_declarations and prev = None, unfolded Let_def]
  have w: "memberAlphabetical \<in> messageId ` set ?v" using t h1 h3 by blast
  obtain r where r: "?v = [r]" using e by auto
  then have "messageId r = memberAlphabetical" "r \<in> set ?v" using e by auto
  with t have "report_data r = [(''memberName'', Some (codeUnits ''c''))]"
    unfolding h4 h5 by blast
  then have d: "map report_data ?v = [[(''memberName'', Some (codeUnits ''c''))]]"
    using r by simp
  from h1 h1' h0 h2 w d show ?thesis by blast
qed

subsection \<open>C7: a fix whose result is not sorted\<close>

text \<open>
  Claim C7 says that the analysis of the fixed text reports nothing. sortAndFixAllNodes
  sorts the named specifiers of a declaration in its text, but then sorts the declarations
  by the first local name of the original node. Below, the first declaration is
  \<open>{c, a}\<close>: it is placed after \<open>{b}\<close> as c, and its text then starts with a. The fix
  replaces the whole text, and the analysis of the result (with the declarations the parser
  gives for it) reports alphabeticalOrder.
\<close>

theorem fix_not_idempotent:
  "map messageId (analyse asciiLowerCase defaultOptions example_stale_source
         example_stale_declarations example_stale_declarations)
     = [memberAlphabetical, alphabeticalOrder]
   \<and> length example_stale_source = 44
   \<and> map report_fix (analyse asciiLowerCase defaultOptions example_stale_source
         example_stale_declarations example_stale_declarations)
     = [ReplaceTextRange (0, 44) example_stale_fixed_source,
        ReplaceTextRange (0, 44) example_stale_fixed_source]
   \<and> example_stale_fixed_source
     = codeUnits ''import {b} from 'y';\<newline>import {a, c} from 'x';''
   \<and> map messageId (analyse asciiLowerCase defaultOptions example_stale_fixed_source
         example_stale_fixed_declarations example_stale_fixed_declarations)
     = [alphabeticalOrder]"
  by code_simp

subsection \<open>C8: a fix never moves a declaration out of its run\<close>

text \<open>
  Claim C8. In the fix, the declarations (with their texts) are grouped, in their original
  order, into maximal sections of declarations with no line between neighbours: no section
  is empty, within a section no two neighbours have a line between them, and between the
  last declaration of a section and the first of the next there is one. Each section is sorted on its own and the
  sorted sections are concatenated in their original order: the places a section held
  before the sort hold, after it, that section sorted, which is a permutation of the
  section. So two declarations in different sections are never reordered relative to each
  other. sortAndFixAllNodes renders the texts of the resulting list in its order.
\<close>

theorem run_isolation:
  "(let fixed = fixedNodes toLowerCase opts src decls;
        secs = sectionsOf fixed;
        out = sortedNodes toLowerCase opts src decls
    in map fst fixed = decls
       \<and> concat secs = fixed
       \<and> (decls \<noteq> [] \<longrightarrow> [] \<notin> set secs)
       \<and> (\<forall>s \<in> set secs. successively (\<lambda>a b. \<not> isLineBetween (fst a) (fst b)) s)
       \<and> successively (\<lambda>s t. isLineBetween (fst (last s)) (fst (hd t))) secs
       \<and> out = concat (map (arraySort (declarationCompare toLowerCase opts)) secs)
       \<and> (\<forall>k < length secs.
             take (length (secs ! k)) (drop (length (concat (take k secs))) out)
               = arraySort (declarationCompare toLowerCase opts) (secs ! k)
             \<and> mset (arraySort (declarationCompare toLowerCase opts) (secs ! k)) = mset (secs ! k)))"
proof -
  define fixed where "fixed = fixedNodes toLowerCase opts src decls"
  define secs where "secs = sectionsOf fixed"
  define out where "out = sortedNodes toLowerCase opts src decls"
  have 1: "map fst fixed = decls" unfolding fixed_def by (rule fixedNodes_fst)
  have inv: "concat secs = fixed"
    "fixed \<noteq> [] \<longrightarrow> [] \<notin> set secs"
    "\<forall>s \<in> set secs. successively (\<lambda>a b. \<not> isLineBetween (fst a) (fst b)) s"
    "successively (\<lambda>s t. isLineBetween (fst (last s)) (fst (hd t))) secs"
    unfolding secs_def using sectionsOf_invariant [of fixed] by blast+
  have 5: "out = concat (map (arraySort (declarationCompare toLowerCase opts)) secs)"
    unfolding out_def secs_def fixed_def by (simp add: sortedNodes_def)
  have 6: "\<forall>k < length secs.
      take (length (secs ! k)) (drop (length (concat (take k secs))) out)
        = arraySort (declarationCompare toLowerCase opts) (secs ! k)
      \<and> mset (arraySort (declarationCompare toLowerCase opts) (secs ! k)) = mset (secs ! k)"
  proof (intro allI impI conjI)
    fix k assume k: "k < length secs"
    have "\<forall>xs \<in> set secs. length (arraySort (declarationCompare toLowerCase opts) xs) = length xs"
      by (simp add: arraySort_length)
    with k show "take (length (secs ! k)) (drop (length (concat (take k secs))) out)
        = arraySort (declarationCompare toLowerCase opts) (secs ! k)"
      unfolding 5 by (rule concat_slot)
    show "mset (arraySort (declarationCompare toLowerCase opts) (secs ! k)) = mset (secs ! k)"
      by (rule arraySort_mset)
  qed
  have ne: "decls \<noteq> [] \<longrightarrow> fixed \<noteq> []" using 1 by auto
  from 1 inv ne 5 6 show ?thesis
    unfolding Let_def fixed_def [symmetric] secs_def [symmetric] out_def [symmetric] by blast
qed

text \<open>
  The theorem at the file of two runs: D and B are exchanged, A stays behind the blank line.
\<close>

theorem run_isolation_witness:
  "map (map (getFirstLocalMemberName \<circ> fst))
     (sectionsOf (fixedNodes asciiLowerCase defaultOptions example_runs_source example_runs_declarations))
     = [[codeUnits ''D'', codeUnits ''B''], [codeUnits ''A'']]
   \<and> map (getFirstLocalMemberName \<circ> fst)
       (sortedNodes asciiLowerCase defaultOptions example_runs_source example_runs_declarations)
     = [codeUnits ''B'', codeUnits ''D'', codeUnits ''A'']
   \<and> [] \<notin> set (sectionsOf (fixedNodes asciiLowerCase defaultOptions example_runs_source
         example_runs_declarations))
   \<and> mset (take 2 (sortedNodes asciiLowerCase defaultOptions example_runs_source example_runs_declarations))
     = mset (sectionsOf (fixedNodes asciiLowerCase defaultOptions example_runs_source example_runs_declarations) ! 0)
   \<and> mset (drop 2 (sortedNodes asciiLowerCase defaultOptions example_runs_source example_runs_declarations))
     = mset (sectionsOf (fixedNodes asciiLowerCase defaultOptions example_runs_source example_runs_declarations) ! 1)"
proof -
  let ?secs = "sectionsOf (fixedNodes asciiLowerCase defaultOptions example_runs_source example_runs_declarations)"
  let ?out = "sortedNodes asciiLowerCase defaultOptions example_runs_source example_runs_declarations"
  have e1: "map (map (getFirstLocalMemberName \<circ> fst)) ?secs = [[codeUnits ''D'', codeUnits ''B''], [codeUnits ''A'']]"
    by code_simp
  have e2: "map (getFirstLocalMemberName \<circ> fst) ?out = [codeUnits ''B'', codeUnits ''D'', codeUnits ''A'']" by code_simp
  have l: "length ?secs = 2" "length (?secs ! 0) = 2" "length (?secs ! 1) = 1" "length ?out = 3"
    by code_simp+
  have c: "length (concat (take 1 ?secs)) = 2" by code_simp
  note t = run_isolation [of asciiLowerCase defaultOptions example_runs_source
      example_runs_declarations,
      unfolded Let_def]
  from t have s: "\<forall>k < length ?secs.
      take (length (?secs ! k)) (drop (length (concat (take k ?secs))) ?out)
        = arraySort (declarationCompare asciiLowerCase defaultOptions) (?secs ! k)
      \<and> mset (arraySort (declarationCompare asciiLowerCase defaultOptions) (?secs ! k)) = mset (?secs ! k)"
    by blast
  have "mset (take (length (?secs ! 0)) (drop (length (concat (take 0 ?secs))) ?out)) = mset (?secs ! 0)"
    using s l(1) by (metis zero_less_numeral)
  then have m0: "mset (take 2 ?out) = mset (?secs ! 0)" using l(2) by simp
  have "mset (take (length (?secs ! 1)) (drop (length (concat (take 1 ?secs))) ?out)) = mset (?secs ! 1)"
    using s l(1) by (metis one_less_numeral_iff semiring_norm(76))
  then have m1: "mset (drop 2 ?out) = mset (?secs ! 1)" using l(3,4) c by simp
  have d: "example_runs_declarations \<noteq> []" by code_simp
  with t have n: "[] \<notin> set ?secs" by blast
  from e1 e2 n m0 m1 show ?thesis by blast
qed

subsection \<open>C9: ties are not kept in their original order\<close>

text \<open>
  Claim C9 says that the sorts of the fix keep tied elements in their original order. Both
  comparators answer -1 for two equal names, whichever comes first, so a tie is never
  reported to the sort as one (the declarations' comparator answers 0 only when a name is
  empty), and the order of tied elements is what the engine's algorithm makes of the
  contradicting answers: it takes them for a descending run and reverses them. Below, with
  ignoreCase, the specifiers A and a, and the declarations importing a and A, are exchanged.
\<close>

theorem ties_reversed:
  "map local_name (importSpecifiersOf (example_ties_declarations ! 0))
     = [codeUnits ''b'', codeUnits ''A'', codeUnits ''a'']
   \<and> specifierCompare asciiLowerCase True (importSpecifiersOf (example_ties_declarations ! 0) ! 1)
        (importSpecifiersOf (example_ties_declarations ! 0) ! 2) = -1
   \<and> specifierCompare asciiLowerCase True (importSpecifiersOf (example_ties_declarations ! 0) ! 2)
        (importSpecifiersOf (example_ties_declarations ! 0) ! 1) = -1
   \<and> map report_fix (analyse asciiLowerCase ignoreCaseOptions example_ties_source
         example_ties_declarations example_ties_declarations)
     = [ReplaceTextRange (0, 26) (codeUnits ''import {a, A, b} from 'x';'')]
   \<and> declarationCompare asciiLowerCase ignoreCaseOptions
        (example_tied_declarations_declarations ! 0, [])
        (example_tied_declarations_declarations ! 1, []) = -1
   \<and> declarationCompare asciiLowerCase ignoreCaseOptions
        (example_tied_declarations_declarations ! 1, [])
        (example_tied_declarations_declarations ! 0, []) = -1
   \<and> map report_fix (analyse asciiLowerCase ignoreCaseOptions example_tied_declarations_source
         example_tied_declarations_declarations example_tied_declarations_declarations)
     = [ReplaceTextRange (0, 58)
          (codeUnits
             ''import {c} from 'z';\<newline>import A from 'y';\<newline>import a from 'x';'')]"
  by code_simp

subsection \<open>C10: the scan never flags the first named specifier\<close>

text \<open>
  Claim C10. The scan for the first unsorted named specifier never answers 0: it answers -1
  or an index from 1 up to the last one, so the flagged specifier and its predecessor exist.
  Every memberAlphabetical report of the handler is on the named specifier at that index, and
  a declaration with at most one named specifier gets no memberAlphabetical report.
\<close>

theorem member_scan_never_flags_first:
  "(firstUnsortedIndex toLowerCase opts node = -1
      \<or> (1 \<le> firstUnsortedIndex toLowerCase opts node
          \<and> firstUnsortedIndex toLowerCase opts node < int (length (importSpecifiersOf node))))
   \<and> (\<forall>r \<in> set (fst (visitImportDeclaration toLowerCase opts src alld prev node)).
         messageId r = memberAlphabetical \<longrightarrow>
           (\<exists>i. 1 \<le> i \<and> i < length (importSpecifiersOf node)
                \<and> firstUnsortedIndex toLowerCase opts node = int i
                \<and> report_node r = SpecifierNode (importSpecifiersOf node ! i)))
   \<and> (length (importSpecifiersOf node) \<le> 1 \<longrightarrow>
         (\<forall>r \<in> set (fst (visitImportDeclaration toLowerCase opts src alld prev node)).
            messageId r \<noteq> memberAlphabetical))"
proof (intro conjI)
  show "firstUnsortedIndex toLowerCase opts node = -1
      \<or> (1 \<le> firstUnsortedIndex toLowerCase opts node
          \<and> firstUnsortedIndex toLowerCase opts node < int (length (importSpecifiersOf node)))"
    by (rule firstUnsortedIndex_range)
next
  show "\<forall>r \<in> set (fst (visitImportDeclaration toLowerCase opts src alld prev node)).
         messageId r = memberAlphabetical \<longrightarrow>
           (\<exists>i. 1 \<le> i \<and> i < length (importSpecifiersOf node)
                \<and> firstUnsortedIndex toLowerCase opts node = int i
                \<and> report_node r = SpecifierNode (importSpecifiersOf node ! i))"
  proof (intro ballI impI)
    fix r assume "r \<in> set (fst (visitImportDeclaration toLowerCase opts src alld prev node))"
      and "messageId r = memberAlphabetical"
    then have r: "r \<in> set (memberReports toLowerCase opts src alld node)"
      using visit_member_reports [of toLowerCase opts src alld prev node] by blast
    then have ne: "firstUnsortedIndex toLowerCase opts node \<noteq> -1"
      by (auto simp: memberReports_def Let_def split: if_splits)
    with firstUnsortedIndex_range [of toLowerCase opts node]
    have b: "1 \<le> firstUnsortedIndex toLowerCase opts node"
      "firstUnsortedIndex toLowerCase opts node < int (length (importSpecifiersOf node))" by auto
    define i where "i = nat (firstUnsortedIndex toLowerCase opts node)"
    have "1 \<le> i" "i < length (importSpecifiersOf node)" "firstUnsortedIndex toLowerCase opts node = int i"
      using b by (auto simp: i_def)
    moreover have "report_node r = SpecifierNode (importSpecifiersOf node ! i)"
      using r ne by (auto simp: memberReports_def Let_def i_def split: if_splits)
    ultimately show "\<exists>i. 1 \<le> i \<and> i < length (importSpecifiersOf node)
                \<and> firstUnsortedIndex toLowerCase opts node = int i
                \<and> report_node r = SpecifierNode (importSpecifiersOf node ! i)" by blast
  qed
next
  show "length (importSpecifiersOf node) \<le> 1 \<longrightarrow>
         (\<forall>r \<in> set (fst (visitImportDeclaration toLowerCase opts src alld prev node)).
            messageId r \<noteq> memberAlphabetical)"
  proof (intro impI ballI)
    fix r assume len: "length (importSpecifiersOf node) \<le> 1"
      and r: "r \<in> set (fst (visitImportDeclaration toLowerCase opts src alld prev node))"
    from len firstUnsortedIndex_range [of toLowerCase opts node]
    have "firstUnsortedIndex toLowerCase opts node = -1" by auto
    then have "memberReports toLowerCase opts src alld node = []"
      by (simp add: memberReports_def Let_def)
    then show "messageId r \<noteq> memberAlphabetical"
      using r visit_member_reports [of toLowerCase opts src alld prev node] by auto
  qed
qed

text \<open>
  The theorem at the declaration \<open>import {b, a, d, c} from 'foo.js'\<close>, whose report is on a
  specifier of index at least 1, and at \<open>import {c} from 'foo.js'\<close>, which gets none.
\<close>

theorem member_scan_never_flags_first_witness:
  "firstUnsortedIndex asciiLowerCase defaultOptions (example_members_declarations ! 0) = 1
   \<and> map messageId (fst (visitImportDeclaration asciiLowerCase defaultOptions example_members_source
          example_members_declarations None (example_members_declarations ! 0))) = [memberAlphabetical]
   \<and> (\<exists>i. 1 \<le> i \<and> i < length (importSpecifiersOf (example_members_declarations ! 0))
          \<and> map report_node (fst (visitImportDeclaration asciiLowerCase defaultOptions example_members_source
                example_members_declarations None (example_members_declarations ! 0)))
              = [SpecifierNode (importSpecifiersOf (example_members_declarations ! 0) ! i)])
   \<and> length (importSpecifiersOf (example_single_declarations ! 0)) \<le> 1
   \<and> memberAlphabetical \<notin> messageId ` set (fst (visitImportDeclaration asciiLowerCase defaultOptions
          example_single_source example_single_declarations None (example_single_declarations ! 0)))"
proof -
  let ?n = "example_members_declarations ! 0"
  let ?v = "fst (visitImportDeclaration asciiLowerCase defaultOptions example_members_source
                   example_members_declarations None ?n)"
  have e1: "firstUnsortedIndex asciiLowerCase defaultOptions ?n = 1" by code_simp
  have e2: "map messageId ?v = [memberAlphabetical]" by code_simp
  have e3: "length (importSpecifiersOf (example_single_declarations ! 0)) \<le> 1" by code_simp
  obtain r where r: "?v = [r]" using e2 by auto
  then have "r \<in> set ?v" "messageId r = memberAlphabetical" using e2 by auto
  with member_scan_never_flags_first [of asciiLowerCase defaultOptions ?n example_members_source
      example_members_declarations None]
  obtain i where "1 \<le> i" "i < length (importSpecifiersOf ?n)"
    "report_node r = SpecifierNode (importSpecifiersOf ?n ! i)" by blast
  then have e4: "\<exists>i. 1 \<le> i \<and> i < length (importSpecifiersOf ?n)
      \<and> map report_node ?v = [SpecifierNode (importSpecifiersOf ?n ! i)]"
    using r by auto
  have e5: "memberAlphabetical \<notin> messageId ` set (fst (visitImportDeclaration asciiLowerCase defaultOptions
          example_single_source example_single_declarations None (example_single_declarations ! 0)))"
    using e3 member_scan_never_flags_first [of asciiLowerCase defaultOptions
      "example_single_declarations ! 0"
      example_single_source example_single_declarations None] by auto
  from e1 e2 e3 e4 e5 show ?thesis by blast
qed

end
